theory Spec2Isabelle
  imports Main "HOL-Library.Sublist" "HOL-Library.Multiset"
begin

section \<open>JavaScript values and strings\<close>

text \<open>
  The request body is the object \<^verbatim>\<open>express.json()\<close> parsed. The handlers of
  \<^verbatim>\<open>server.js\<close> read five properties of it. A property holds a JSON value or is
  absent (\<open>Undefined\<close>). Numbers are the integers, which JavaScript prints in decimal
  below \<open>10\<^sup>2\<^sup>1\<close>; a string is a list of code units below 256, read as Latin-1,
  so that \<open>length\<close> counts what JavaScript's \<^verbatim>\<open>.length\<close> counts. An object is the
  list of its properties in the order of the text; \<^verbatim>\<open>JSON.parse\<close> keeps the last of
  two properties of one name. A body that is an array has none of the five properties:
  it is the record of five absent ones.
\<close>

datatype json =
    JNull
  | JBool bool
  | JNum int
  | JStr string
  | JArr "json list"
  | JObj "(string \<times> json) list"

datatype jsval =
    Undefined
  | Null
  | Bool bool
  | Num int
  | Str string
  | Arr "json list"
  | Obj "(string \<times> json) list"

datatype js_error = TypeError

record user_body =
  full_name :: jsval
  email :: jsval
  phone :: jsval
  role :: jsval
  password :: jsval

text \<open>\<^verbatim>\<open>!v\<close> is \<open>\<not> truthy v\<close>: every array and every object is true.\<close>

fun truthy :: "jsval \<Rightarrow> bool" where
  "truthy Undefined = False"
| "truthy Null = False"
| "truthy (Bool b) = b"
| "truthy (Num n) = (n \<noteq> 0)"
| "truthy (Str s) = (s \<noteq> [])"
| "truthy (Arr xs) = True"
| "truthy (Obj kvs) = True"

text \<open>
  White space of \<^verbatim>\<open>String.prototype.trim\<close> and of the class \<^verbatim>\<open>\s\<close>, below 256:
  TAB, LF, VT, FF, CR, SP and NBSP.
\<close>

definition is_space :: "char \<Rightarrow> bool" where
  "is_space c = ((of_char c :: nat) \<in> {9, 10, 11, 12, 13, 32, 160})"

definition trim :: "string \<Rightarrow> string" where
  "trim s = rev (dropWhile is_space (rev (dropWhile is_space s)))"

text \<open>
  The upper-case letters below 256 are A to Z, and U+00C0 to U+00DE without U+00D7;
  \<^verbatim>\<open>toLowerCase\<close> moves each of them up by 32.
\<close>

definition is_upper :: "char \<Rightarrow> bool" where
  "is_upper c = (let n = (of_char c :: nat) in
     (65 \<le> n \<and> n \<le> 90) \<or> (192 \<le> n \<and> n \<le> 214) \<or> (216 \<le> n \<and> n \<le> 222))"

definition lower_char :: "char \<Rightarrow> char" where
  "lower_char c = (if is_upper c then char_of ((of_char c :: nat) + 32) else c)"

definition toLowerCase :: "string \<Rightarrow> string" where
  "toLowerCase s = map lower_char s"

text \<open>
  \<^verbatim>\<open>v.trim()\<close>: only a string has the method. A property named \<^verbatim>\<open>trim\<close> of an
  object from JSON is no function, so the call raises there as well.
\<close>

fun js_trim :: "jsval \<Rightarrow> js_error + string" where
  "js_trim (Str s) = Inr (trim s)"
| "js_trim _ = Inl TypeError"

text \<open>The property of an object by its name: the last one of that name.\<close>

definition own_property :: "(string \<times> json) list \<Rightarrow> string \<Rightarrow> json option" where
  "own_property kvs k = map_of (rev kvs) k"

text \<open>
  \<^verbatim>\<open>v.length\<close>: reading a property of \<^verbatim>\<open>undefined\<close> or \<^verbatim>\<open>null\<close> raises; a string
  has its number of code units, an array its number of elements, an object its property
  of that name, if any; a number or a boolean has none (the result \<open>None\<close> is
  JavaScript's \<^verbatim>\<open>undefined\<close>).
\<close>

fun js_length :: "jsval \<Rightarrow> js_error + json option" where
  "js_length (Str s) = Inr (Some (JNum (int (length s))))"
| "js_length (Arr xs) = Inr (Some (JNum (int (length xs))))"
| "js_length (Obj kvs) = Inr (own_property kvs ''length'')"
| "js_length (Num n) = Inr None"
| "js_length (Bool b) = Inr None"
| "js_length Undefined = Inl TypeError"
| "js_length Null = Inl TypeError"

text \<open>Decimal digits of a number, as \<^verbatim>\<open>String(n)\<close> prints an integer.\<close>

fun digits :: "nat \<Rightarrow> string" where
  "digits n = (if n < 10 then [char_of (48 + n)]
     else digits (n div 10) @ [char_of (48 + n mod 10)])"

declare digits.simps [simp del]

definition number_to_string :: "int \<Rightarrow> string" where
  "number_to_string n = (if n < 0 then CHR ''-'' # digits (nat (- n)) else digits (nat n))"

text \<open>
  The conversion of a JSON value to a string. An array is its elements, converted and
  joined by commas, with nothing for an element \<^verbatim>\<open>null\<close>. An object is
  \<^verbatim>\<open>[object Object]\<close> by the method it inherits; a property of its own named
  \<^verbatim>\<open>toString\<close> hides that method and is no function, and then the conversion raises.
\<close>

fun json_to_string :: "json \<Rightarrow> js_error + string"
  and join_elements :: "json list \<Rightarrow> js_error + string" where
  "json_to_string JNull = Inr ''null''"
| "json_to_string (JBool b) = Inr (if b then ''true'' else ''false'')"
| "json_to_string (JNum n) = Inr (number_to_string n)"
| "json_to_string (JStr s) = Inr s"
| "json_to_string (JArr xs) = join_elements xs"
| "json_to_string (JObj kvs) =
     (if ''toString'' \<in> fst ` set kvs then Inl TypeError else Inr ''[object Object]'')"
| "join_elements [] = Inr []"
| "join_elements (x # xs) =
     (case (if x = JNull then Inr [] else json_to_string x) of
        Inl e \<Rightarrow> Inl e
      | Inr s \<Rightarrow>
          if xs = [] then Inr s
          else (case join_elements xs of
                  Inl e \<Rightarrow> Inl e
                | Inr t \<Rightarrow> Inr (s @ '','' @ t)))"

fun to_string :: "jsval \<Rightarrow> js_error + string" where
  "to_string Undefined = Inr ''undefined''"
| "to_string Null = Inr ''null''"
| "to_string (Bool b) = Inr (if b then ''true'' else ''false'')"
| "to_string (Num n) = Inr (number_to_string n)"
| "to_string (Str s) = Inr s"
| "to_string (Arr xs) = json_to_string (JArr xs)"
| "to_string (Obj kvs) = json_to_string (JObj kvs)"

text \<open>
  \<^verbatim>\<open>w < k\<close> and \<^verbatim>\<open>w > k\<close> for a value \<open>w\<close> and a number \<open>k\<close>. JavaScript turns
  \<open>w\<close> into a number first: \<^verbatim>\<open>undefined\<close> into NaN, on which every comparison is
  false, \<^verbatim>\<open>null\<close> into 0, a boolean into 0 or 1, an array or object into its string,
  and a string into the floating-point number it spells or into NaN. How that last
  number compares with \<open>k\<close> is outside the model and a parameter of it, \<open>cmp\<close>.
\<close>

datatype comparison = Less | Equal | Greater | Unordered

type_synonym string_number = "string \<Rightarrow> int \<Rightarrow> comparison"

definition compare_int :: "int \<Rightarrow> int \<Rightarrow> comparison" where
  "compare_int n k = (if n < k then Less else if n = k then Equal else Greater)"

fun js_compare :: "string_number \<Rightarrow> json option \<Rightarrow> int \<Rightarrow> js_error + comparison" where
  "js_compare cmp None k = Inr Unordered"
| "js_compare cmp (Some JNull) k = Inr (compare_int 0 k)"
| "js_compare cmp (Some (JBool b)) k = Inr (compare_int (if b then 1 else 0) k)"
| "js_compare cmp (Some (JNum n)) k = Inr (compare_int n k)"
| "js_compare cmp (Some (JStr s)) k = Inr (cmp s k)"
| "js_compare cmp (Some (JArr xs)) k =
     (case json_to_string (JArr xs) of Inl e \<Rightarrow> Inl e | Inr s \<Rightarrow> Inr (cmp s k))"
| "js_compare cmp (Some (JObj kvs)) k =
     (case json_to_string (JObj kvs) of Inl e \<Rightarrow> Inl e | Inr s \<Rightarrow> Inr (cmp s k))"

definition js_lt :: "string_number \<Rightarrow> json option \<Rightarrow> int \<Rightarrow> js_error + bool" where
  "js_lt cmp w k = (case js_compare cmp w k of Inl e \<Rightarrow> Inl e | Inr c \<Rightarrow> Inr (c = Less))"

definition js_gt :: "string_number \<Rightarrow> json option \<Rightarrow> int \<Rightarrow> js_error + bool" where
  "js_gt cmp w k = (case js_compare cmp w k of Inl e \<Rightarrow> Inl e | Inr c \<Rightarrow> Inr (c = Greater))"

subsection \<open>Regular expressions\<close>

text \<open>
  The two patterns of \<^verbatim>\<open>validateUser\<close> are anchored at both ends and use character
  classes, sequence and repetition only, so \<^verbatim>\<open>test\<close> decides membership of the whole
  string in the pattern's language. The matcher takes the derivative of the pattern by
  each character in turn.
\<close>

datatype regex =
    Never
  | Eps
  | Cls "char \<Rightarrow> bool"
  | Alt regex regex
  | Seq regex regex
  | Star regex

fun nullable :: "regex \<Rightarrow> bool" where
  "nullable Never = False"
| "nullable Eps = True"
| "nullable (Cls p) = False"
| "nullable (Alt r s) = (nullable r \<or> nullable s)"
| "nullable (Seq r s) = (nullable r \<and> nullable s)"
| "nullable (Star r) = True"

fun deriv :: "char \<Rightarrow> regex \<Rightarrow> regex" where
  "deriv c Never = Never"
| "deriv c Eps = Never"
| "deriv c (Cls p) = (if p c then Eps else Never)"
| "deriv c (Alt r s) = Alt (deriv c r) (deriv c s)"
| "deriv c (Seq r s) =
     (if nullable r then Alt (Seq (deriv c r) s) (deriv c s) else Seq (deriv c r) s)"
| "deriv c (Star r) = Seq (deriv c r) (Star r)"

fun matches :: "regex \<Rightarrow> string \<Rightarrow> bool" where
  "matches r [] = nullable r"
| "matches r (c # cs) = matches (deriv c r) cs"

text \<open>\<^verbatim>\<open>r+\<close> and \<^verbatim>\<open>r{n}\<close>.\<close>

definition Plus :: "regex \<Rightarrow> regex" where
  "Plus r = Seq r (Star r)"

fun Times :: "nat \<Rightarrow> regex \<Rightarrow> regex" where
  "Times 0 r = Eps"
| "Times (Suc n) r = Seq r (Times n r)"

text \<open>\<^verbatim>\<open>[^\s@]\<close>, \<^verbatim>\<open>\d\<close> and a literal character.\<close>

definition not_space_at :: "char \<Rightarrow> bool" where
  "not_space_at c = (\<not> is_space c \<and> c \<noteq> CHR ''@'')"

definition is_digit :: "char \<Rightarrow> bool" where
  "is_digit c = (48 \<le> (of_char c :: nat) \<and> (of_char c :: nat) \<le> 57)"

definition Chr :: "char \<Rightarrow> regex" where
  "Chr a = Cls (\<lambda>c. c = a)"

text \<open>\<^verbatim>\<open>/^[^\s@]+@[^\s@]+\.[^\s@]+$/\<close>\<close>

definition email_regex :: regex where
  "email_regex =
     Seq (Plus (Cls not_space_at))
       (Seq (Chr CHR ''@'')
         (Seq (Plus (Cls not_space_at))
           (Seq (Chr CHR ''.'') (Plus (Cls not_space_at)))))"

text \<open>\<^verbatim>\<open>/^\d{10}$/\<close>\<close>

definition phone_regex :: regex where
  "phone_regex = Times 10 (Cls is_digit)"

text \<open>\<^verbatim>\<open>re.test(v)\<close> converts its argument to a string first.\<close>

definition regex_test :: "regex \<Rightarrow> jsval \<Rightarrow> js_error + bool" where
  "regex_test r v = (case to_string v of Inl e \<Rightarrow> Inl e | Inr s \<Rightarrow> Inr (matches r s))"

section \<open>The validator\<close>

definition validRoles :: "jsval list" where
  "validRoles = [Str ''Admin'', Str ''User'', Str ''Guest'']"

definition full_name_error :: string where
  "full_name_error = ''Full Name must be between 2 and 50 characters''"

definition email_error :: string where
  "email_error = ''A valid email is required''"

definition phone_error :: string where
  "phone_error = ''Phone must be exactly 10 digits''"

definition role_error :: string where
  "role_error = ''Role must be Admin, User, or Guest''"

definition password_error :: string where
  "password_error = ''Password must be at least 8 characters''"

text \<open>
  The condition of each \<^verbatim>\<open>if\<close> of \<^verbatim>\<open>validateUser\<close>, with the short-circuit of
  \<^verbatim>\<open>||\<close> and \<^verbatim>\<open>&&\<close>: an operand to the right is evaluated only when the ones to
  its left have not decided the result. \<^verbatim>\<open>includes\<close> compares by identity, so no
  array or object is among the roles.
\<close>

definition full_name_bad :: "jsval \<Rightarrow> js_error + bool" where
  "full_name_bad v =
     (if \<not> truthy v then Inr True
      else case js_trim v of
        Inl e \<Rightarrow> Inl e
      | Inr t \<Rightarrow> Inr (length t < 2 \<or> length t > 50))"

definition email_bad :: "jsval \<Rightarrow> js_error + bool" where
  "email_bad v =
     (if \<not> truthy v then Inr True
      else case regex_test email_regex v of
        Inl e \<Rightarrow> Inl e
      | Inr m \<Rightarrow> Inr (\<not> m))"

definition phone_bad :: "jsval \<Rightarrow> js_error + bool" where
  "phone_bad v =
     (if \<not> truthy v then Inr True
      else case regex_test phone_regex v of
        Inl e \<Rightarrow> Inl e
      | Inr m \<Rightarrow> Inr (\<not> m))"

definition role_bad :: "jsval \<Rightarrow> bool" where
  "role_bad v = (\<not> truthy v \<or> v \<notin> set validRoles)"

definition password_bad_create :: "string_number \<Rightarrow> bool \<Rightarrow> jsval \<Rightarrow> js_error + bool" where
  "password_bad_create cmp isUpdate v =
     (if isUpdate then Inr False
      else if \<not> truthy v then Inr True
      else case js_length v of
        Inl e \<Rightarrow> Inl e
      | Inr w \<Rightarrow> js_lt cmp w 8)"

definition password_bad_update :: "string_number \<Rightarrow> bool \<Rightarrow> jsval \<Rightarrow> js_error + bool" where
  "password_bad_update cmp isUpdate v =
     (if \<not> isUpdate then Inr False
      else if \<not> truthy v then Inr False
      else case js_length v of
        Inl e \<Rightarrow> Inl e
      | Inr w \<Rightarrow>
          (case js_gt cmp w 0 of
             Inl e \<Rightarrow> Inl e
           | Inr g \<Rightarrow> if \<not> g then Inr False else js_lt cmp w 8))"

text \<open>\<^verbatim>\<open>if (c) errors.push(m)\<close>\<close>

definition push_if :: "bool \<Rightarrow> string \<Rightarrow> string list \<Rightarrow> string list" where
  "push_if c m errors = (if c then errors @ [m] else errors)"

text \<open>The six checks run in the order of the source; the first that raises ends the call.\<close>

definition validateUser :: "string_number \<Rightarrow> user_body \<Rightarrow> bool \<Rightarrow> js_error + string list" where
  "validateUser cmp data isUpdate =
     (case full_name_bad (full_name data) of
        Inl e \<Rightarrow> Inl e
      | Inr c1 \<Rightarrow>
     (case email_bad (email data) of
        Inl e \<Rightarrow> Inl e
      | Inr c2 \<Rightarrow>
     (case phone_bad (phone data) of
        Inl e \<Rightarrow> Inl e
      | Inr c3 \<Rightarrow>
     (case password_bad_create cmp isUpdate (password data) of
        Inl e \<Rightarrow> Inl e
      | Inr c5 \<Rightarrow>
     (case password_bad_update cmp isUpdate (password data) of
        Inl e \<Rightarrow> Inl e
      | Inr c6 \<Rightarrow>
        Inr (push_if c6 password_error
            (push_if c5 password_error
            (push_if (role_bad (role data)) role_error
            (push_if c3 phone_error
            (push_if c2 email_error
            (push_if c1 full_name_error []))))))  )))))"

section \<open>The users table\<close>

text \<open>
  The table \<^verbatim>\<open>users\<close> as \<^verbatim>\<open>server.js\<close> creates it: an integer primary key with
  \<^verbatim>\<open>AUTOINCREMENT\<close>, a \<^verbatim>\<open>UNIQUE\<close> email and four more text columns. \<open>seq\<close> is
  the largest key the table has ever held, which \<^verbatim>\<open>AUTOINCREMENT\<close> keeps. Keys are
  natural numbers; the 64-bit limit of the engine's keys is outside the model.
\<close>

record user_row =
  row_id :: nat
  row_full_name :: string
  row_email :: string
  row_phone :: string
  row_role :: string
  row_password :: string

record db =
  users :: "user_row list"
  seq :: nat

definition empty_db :: db where
  "empty_db = \<lparr>users = [], seq = 0\<rparr>"

text \<open>
  A statement either runs or fails for a reason of the engine's own (an I/O error, a
  locked file): \<open>fault\<close> is the message of that failure, \<open>None\<close> when there is none.
  A failed statement changes nothing.
\<close>

type_synonym fault = "string option"

definition unique_message :: string where
  "unique_message = ''SQLITE_CONSTRAINT: UNIQUE constraint failed: users.email''"

text \<open>\<^verbatim>\<open>SELECT id, full_name, email, phone, role FROM users ORDER BY id DESC\<close>\<close>

definition db_all :: "fault \<Rightarrow> db \<Rightarrow> string + user_row list" where
  "db_all f s =
     (case f of
        Some m \<Rightarrow> Inl m
      | None \<Rightarrow> Inr (rev (sort_key row_id (users s))))"

text \<open>
  \<^verbatim>\<open>INSERT INTO users (full_name, email, phone, role, password) VALUES (?, ?, ?, ?, ?)\<close>:
  the result is the new key (\<^verbatim>\<open>this.lastID\<close>) and the table.
\<close>

definition next_id :: "db \<Rightarrow> nat" where
  "next_id s = Suc (fold max (map row_id (users s)) (seq s))"

definition db_insert ::
  "fault \<Rightarrow> db \<Rightarrow> string \<Rightarrow> string \<Rightarrow> string \<Rightarrow> string \<Rightarrow> string \<Rightarrow> string + (nat \<times> db)" where
  "db_insert f s fn em ph ro pw =
     (case f of
        Some m \<Rightarrow> Inl m
      | None \<Rightarrow>
          if list_ex (\<lambda>r. row_email r = em) (users s) then Inl unique_message
          else
            let i = next_id s;
                new = \<lparr>row_id = i, row_full_name = fn, row_email = em, row_phone = ph,
                       row_role = ro, row_password = pw\<rparr>
            in Inr (i, s\<lparr>users := users s @ [new], seq := i\<rparr>))"

text \<open>\<^verbatim>\<open>SELECT id FROM users WHERE id = ?\<close>: the first row found, if any.\<close>

definition db_get :: "fault \<Rightarrow> db \<Rightarrow> nat \<Rightarrow> string + nat option" where
  "db_get f s i =
     (case f of
        Some m \<Rightarrow> Inl m
      | None \<Rightarrow> Inr (map_option row_id (find (\<lambda>r. row_id r = i) (users s))))"

text \<open>
  \<^verbatim>\<open>UPDATE users SET full_name = ?, email = ?, phone = ?, role = ? [, password = ?]
  WHERE id = ?\<close>: the two statements of the handler differ in the password column only,
  \<open>pw = None\<close> is the one without it.
\<close>

definition set_columns ::
  "string \<Rightarrow> string \<Rightarrow> string \<Rightarrow> string \<Rightarrow> string option \<Rightarrow> user_row \<Rightarrow> user_row" where
  "set_columns fn em ph ro pw r =
     (case pw of
        Some p \<Rightarrow> r\<lparr>row_full_name := fn, row_email := em, row_phone := ph, row_role := ro,
                     row_password := p\<rparr>
      | None \<Rightarrow> r\<lparr>row_full_name := fn, row_email := em, row_phone := ph, row_role := ro\<rparr>)"

definition db_update ::
  "fault \<Rightarrow> db \<Rightarrow> nat \<Rightarrow> string \<Rightarrow> string \<Rightarrow> string \<Rightarrow> string \<Rightarrow> string option \<Rightarrow> string + db" where
  "db_update f s i fn em ph ro pw =
     (case f of
        Some m \<Rightarrow> Inl m
      | None \<Rightarrow>
          if list_ex (\<lambda>r. row_id r = i) (users s)
             \<and> list_ex (\<lambda>r. row_id r \<noteq> i \<and> row_email r = em) (users s)
          then Inl unique_message
          else Inr (s\<lparr>users :=
                 map (\<lambda>r. if row_id r = i then set_columns fn em ph ro pw r else r) (users s)\<rparr>))"

text \<open>\<^verbatim>\<open>DELETE FROM users WHERE id = ?\<close>: the result is \<^verbatim>\<open>this.changes\<close> and the table.\<close>

definition db_delete :: "fault \<Rightarrow> db \<Rightarrow> nat \<Rightarrow> string + (nat \<times> db)" where
  "db_delete f s i =
     (case f of
        Some m \<Rightarrow> Inl m
      | None \<Rightarrow>
          Inr (length (filter (\<lambda>r. row_id r = i) (users s)),
               s\<lparr>users := filter (\<lambda>r. row_id r \<noteq> i) (users s)\<rparr>))"

section \<open>The request handlers\<close>

record response =
  status :: nat
  body :: json

text \<open>
  A property whose value is \<^verbatim>\<open>undefined\<close> is left out of the JSON text that
  \<^verbatim>\<open>res.json\<close> sends.
\<close>

fun property :: "string \<Rightarrow> jsval \<Rightarrow> (string \<times> json) list" where
  "property k Undefined = []"
| "property k Null = [(k, JNull)]"
| "property k (Bool b) = [(k, JBool b)]"
| "property k (Num n) = [(k, JNum n)]"
| "property k (Str s) = [(k, JStr s)]"
| "property k (Arr xs) = [(k, JArr xs)]"
| "property k (Obj kvs) = [(k, JObj kvs)]"

definition error_body :: "string \<Rightarrow> json" where
  "error_body m = JObj [(''error'', JStr m)]"

definition message_body :: "string \<Rightarrow> json" where
  "message_body m = JObj [(''message'', JStr m)]"

text \<open>\<^verbatim>\<open>errors.join(', ')\<close>\<close>

fun join :: "string list \<Rightarrow> string \<Rightarrow> string" where
  "join [] sep = []"
| "join [x] sep = x"
| "join (x # y # ys) sep = x @ sep @ join (y # ys) sep"

text \<open>\<^verbatim>\<open>s.includes(t)\<close>\<close>

fun str_includes :: "string \<Rightarrow> string \<Rightarrow> bool" where
  "str_includes [] t = (t = [])"
| "str_includes (c # cs) t = (prefix t (c # cs) \<or> str_includes cs t)"

text \<open>The row of the \<^verbatim>\<open>SELECT\<close> of the list handler, as the driver hands it over.\<close>

definition row_json :: "user_row \<Rightarrow> json" where
  "row_json r = JObj [(''id'', JNum (int (row_id r))), (''full_name'', JStr (row_full_name r)),
     (''email'', JStr (row_email r)), (''phone'', JStr (row_phone r)),
     (''role'', JStr (row_role r))]"

text \<open>
  A handler ends in a response and the table it leaves, or in an exception thrown
  before any statement that writes has run. \<open>bind_text\<close> is the text the driver and
  the column store for a parameter that is not a string; a string is stored as it is.
\<close>

type_synonym outcome = "js_error + (response \<times> db)"

definition bound_text :: "(jsval \<Rightarrow> string) \<Rightarrow> jsval \<Rightarrow> string" where
  "bound_text bind_text v = (case v of Str s \<Rightarrow> s | _ \<Rightarrow> bind_text v)"

text \<open>\<^verbatim>\<open>GET /api/users\<close>\<close>

definition get_users :: "fault \<Rightarrow> db \<Rightarrow> outcome" where
  "get_users f s =
     (case db_all f s of
        Inl m \<Rightarrow> Inr (\<lparr>status = 500, body = error_body ''Failed to fetch users''\<rparr>, s)
      | Inr rows \<Rightarrow> Inr (\<lparr>status = 200, body = JArr (map row_json rows)\<rparr>, s))"

text \<open>\<^verbatim>\<open>POST /api/users\<close>\<close>

definition post_users ::
  "string_number \<Rightarrow> (jsval \<Rightarrow> string) \<Rightarrow> fault \<Rightarrow> db \<Rightarrow> user_body \<Rightarrow> outcome" where
  "post_users cmp bind_text f s req =
     (case validateUser cmp req False of
        Inl e \<Rightarrow> Inl e
      | Inr errors \<Rightarrow>
          if length errors > 0 then
            Inr (\<lparr>status = 400, body = error_body (join errors '', '')\<rparr>, s)
          else
     (case js_trim (full_name req) of Inl e \<Rightarrow> Inl e | Inr fn \<Rightarrow>
     (case js_trim (email req) of Inl e \<Rightarrow> Inl e | Inr em \<Rightarrow>
     (case js_trim (phone req) of Inl e \<Rightarrow> Inl e | Inr ph \<Rightarrow>
     (case db_insert f s fn (toLowerCase em) ph (bound_text bind_text (role req))
             (bound_text bind_text (password req)) of
        Inl m \<Rightarrow>
          if str_includes m ''UNIQUE constraint failed'' then
            Inr (\<lparr>status = 400, body = error_body ''Email already exists''\<rparr>, s)
          else Inr (\<lparr>status = 500, body = error_body ''Failed to add user''\<rparr>, s)
      | Inr (lastID, s') \<Rightarrow>
          Inr (\<lparr>status = 201,
                body = JObj ([(''id'', JNum (int lastID))] @ property ''full_name'' (full_name req)
                  @ property ''email'' (email req) @ property ''phone'' (phone req)
                  @ property ''role'' (role req))\<rparr>, s'))))))"

text \<open>\<^verbatim>\<open>password && password.length > 0\<close>\<close>

definition password_given :: "string_number \<Rightarrow> jsval \<Rightarrow> js_error + bool" where
  "password_given cmp v =
     (if \<not> truthy v then Inr False
      else case js_length v of
        Inl e \<Rightarrow> Inl e
      | Inr w \<Rightarrow> js_gt cmp w 0)"

text \<open>
  \<^verbatim>\<open>PUT /api/users/:id\<close>. The path parameter is given as the key it is compared as;
  \<open>f1\<close> and \<open>f2\<close> are the faults of the \<^verbatim>\<open>SELECT\<close> and of the \<^verbatim>\<open>UPDATE\<close>. The
  test of the password comes first in the callback, the three calls of \<^verbatim>\<open>trim\<close>
  after it.
\<close>

definition put_users ::
  "string_number \<Rightarrow> (jsval \<Rightarrow> string) \<Rightarrow> fault \<Rightarrow> fault \<Rightarrow> db \<Rightarrow> nat \<Rightarrow> user_body
     \<Rightarrow> outcome" where
  "put_users cmp bind_text f1 f2 s i req =
     (case validateUser cmp req True of
        Inl e \<Rightarrow> Inl e
      | Inr errors \<Rightarrow>
          if length errors > 0 then
            Inr (\<lparr>status = 400, body = error_body (join errors '', '')\<rparr>, s)
          else
     (case db_get f1 s i of
        Inl m \<Rightarrow> Inr (\<lparr>status = 500, body = error_body ''Database error''\<rparr>, s)
      | Inr None \<Rightarrow> Inr (\<lparr>status = 404, body = error_body ''User not found''\<rparr>, s)
      | Inr (Some row) \<Rightarrow>
     (case password_given cmp (password req) of Inl e \<Rightarrow> Inl e | Inr given \<Rightarrow>
     (case js_trim (full_name req) of Inl e \<Rightarrow> Inl e | Inr fn \<Rightarrow>
     (case js_trim (email req) of Inl e \<Rightarrow> Inl e | Inr em \<Rightarrow>
     (case js_trim (phone req) of Inl e \<Rightarrow> Inl e | Inr ph \<Rightarrow>
     (case db_update f2 s i fn (toLowerCase em) ph (bound_text bind_text (role req))
             (if given then Some (bound_text bind_text (password req)) else None) of
        Inl m \<Rightarrow>
          if str_includes m ''UNIQUE constraint failed'' then
            Inr (\<lparr>status = 400, body = error_body ''Email already exists''\<rparr>, s)
          else Inr (\<lparr>status = 500, body = error_body ''Failed to update user''\<rparr>, s)
      | Inr s' \<Rightarrow>
          Inr (\<lparr>status = 200, body = message_body ''User updated successfully''\<rparr>, s'))))))))"

text \<open>\<^verbatim>\<open>DELETE /api/users/:id\<close>\<close>

definition delete_users :: "fault \<Rightarrow> db \<Rightarrow> nat \<Rightarrow> outcome" where
  "delete_users f s i =
     (case db_delete f s i of
        Inl m \<Rightarrow> Inr (\<lparr>status = 500, body = error_body ''Failed to delete user''\<rparr>, s)
      | Inr (changes, s') \<Rightarrow>
          if changes = 0 then Inr (\<lparr>status = 404, body = error_body ''User not found''\<rparr>, s)
          else Inr (\<lparr>status = 200, body = message_body ''User deleted successfully''\<rparr>, s'))"

section \<open>Sample requests and tables\<close>

text \<open>A reading of strings as numbers in which no string spells a number.\<close>

definition no_number :: string_number where
  "no_number s k = Unordered"

text \<open>A driver that stores a value that is not a string as its JavaScript string.\<close>

definition driver_text :: "jsval \<Rightarrow> string" where
  "driver_text v = (case to_string v of Inl e \<Rightarrow> [] | Inr s \<Rightarrow> s)"

definition sample_user :: user_body where
  "sample_user = \<lparr>full_name = Str '' Bob'', email = Str ''A@b.co'', phone = Str ''1234567890'',
     role = Str ''User'', password = Str ''secret12''\<rparr>"

definition weak_user :: user_body where
  "weak_user = sample_user\<lparr>password := Str ''short''\<rparr>"

definition numeric_name_user :: user_body where
  "numeric_name_user = sample_user\<lparr>full_name := Num 5\<rparr>"


definition padded_name :: string where
  "padded_name = ''Al'' @ replicate 49 CHR '' ''"

definition padded_user :: user_body where
  "padded_user = sample_user\<lparr>full_name := Str padded_name\<rparr>"

definition bad_user :: user_body where
  "bad_user = weak_user\<lparr>phone := Str ''12345''\<rparr>"

definition bob_row :: user_row where
  "bob_row = \<lparr>row_id = 1, row_full_name = ''Bob'', row_email = ''a@b.co'',
     row_phone = ''1234567890'', row_role = ''User'', row_password = ''secret12''\<rparr>"

definition eve_row :: user_row where
  "eve_row = \<lparr>row_id = 2, row_full_name = ''Eve'', row_email = ''eve@b.co'',
     row_phone = ''0987654321'', row_role = ''Admin'', row_password = ''password1''\<rparr>"

definition one_user_db :: db where
  "one_user_db = \<lparr>users = [bob_row], seq = 1\<rparr>"

definition two_user_db :: db where
  "two_user_db = \<lparr>users = [bob_row, eve_row], seq = 2\<rparr>"

definition spaced_user :: user_body where
  "spaced_user = sample_user\<lparr>email := Str '' a@B.co''\<rparr>"

definition created_body :: json where
  "created_body = JObj [(''id'', JNum 1), (''full_name'', JStr '' Bob''),
     (''email'', JStr ''A@b.co''), (''phone'', JStr ''1234567890''), (''role'', JStr ''User'')]"

definition eve_user :: user_body where
  "eve_user = \<lparr>full_name = Str ''Eve'', email = Str ''Eve@b.co'', phone = Str ''0987654321'',
     role = Str ''Admin'', password = Str ''password1''\<rparr>"

definition eve_upper_user :: user_body where
  "eve_upper_user = eve_user\<lparr>email := Str ''EVE@B.CO''\<rparr>"

definition eve_created_body :: json where
  "eve_created_body = JObj [(''id'', JNum 2), (''full_name'', JStr ''Eve''),
     (''email'', JStr ''Eve@b.co''), (''phone'', JStr ''0987654321''), (''role'', JStr ''Admin'')]"

section \<open>Predicates of the properties\<close>

text \<open>An email in lower case and with no white space at either end.\<close>

definition email_normal :: "string \<Rightarrow> bool" where
  "email_normal e = (trim e = e \<and> (\<forall>c \<in> set e. \<not> is_upper c))"

definition emails_normal :: "db \<Rightarrow> bool" where
  "emails_normal s = (\<forall>r \<in> set (users s). email_normal (row_email r))"

text \<open>
  A pattern that no string matches, and a pattern whose classes all lie within a set of
  characters.
\<close>

fun dead :: "regex \<Rightarrow> bool" where
  "dead Never = True"
| "dead Eps = False"
| "dead (Cls p) = False"
| "dead (Alt r s) = (dead r \<and> dead s)"
| "dead (Seq r s) = (dead r \<or> dead s)"
| "dead (Star r) = False"

fun classes_within :: "(char \<Rightarrow> bool) \<Rightarrow> regex \<Rightarrow> bool" where
  "classes_within q Never = True"
| "classes_within q Eps = True"
| "classes_within q (Cls p) = (\<forall>c. p c \<longrightarrow> q c)"
| "classes_within q (Alt r s) = (classes_within q r \<and> classes_within q s)"
| "classes_within q (Seq r s) = (classes_within q r \<and> classes_within q s)"
| "classes_within q (Star r) = classes_within q r"

text \<open>
  A value in which no object has a property named \<^verbatim>\<open>toString\<close>: its conversion to a
  string does not raise, nor does that of any value inside it.
\<close>

fun tame_json :: "json \<Rightarrow> bool" where
  "tame_json (JArr xs) = list_all tame_json xs"
| "tame_json (JObj kvs) = (''toString'' \<notin> fst ` set kvs \<and> list_all tame_json (map snd kvs))"
| "tame_json _ = True"

fun tame :: "jsval \<Rightarrow> bool" where
  "tame (Arr xs) = tame_json (JArr xs)"
| "tame (Obj kvs) = tame_json (JObj kvs)"
| "tame _ = True"

section \<open>Properties of the validator\<close>

lemma compare_int_simps [simp]:
  "compare_int n k = Less \<longleftrightarrow> n < k" "compare_int n k = Greater \<longleftrightarrow> k < n"
  by (auto simp: compare_int_def)

lemma js_lt_number [simp]: "js_lt cmp (Some (JNum n)) k = Inr (n < k)"
  by (simp add: js_lt_def)

lemma js_gt_number [simp]: "js_gt cmp (Some (JNum n)) k = Inr (k < n)"
  by (simp add: js_gt_def)

lemma js_lt_undefined [simp]: "js_lt cmp None k = Inr False"
  by (simp add: js_lt_def)

lemma js_gt_undefined [simp]: "js_gt cmp None k = Inr False"
  by (simp add: js_gt_def)



lemma tame_json_converts:
  "tame_json j \<Longrightarrow> \<exists>s. json_to_string j = Inr s"
  "list_all tame_json xs \<Longrightarrow> \<exists>s. join_elements xs = Inr s"
  by (induction j and xs rule: json_to_string_join_elements.induct) auto

lemma tame_converts: "tame v \<Longrightarrow> \<exists>s. to_string v = Inr s"
  by (cases v) (auto dest: tame_json_converts(2))

lemma tame_json_compares:
  assumes "tame_json w"
  shows "\<exists>c. js_compare cmp (Some w) k = Inr c"
  using assms by (cases w) (auto dest: tame_json_converts(2))

lemma own_property_member: "own_property kvs k = Some w \<Longrightarrow> w \<in> snd ` set kvs"
  by (auto simp: own_property_def dest!: map_of_SomeD intro: rev_image_eqI)

lemma tame_length_compares:
  assumes "tame v" and "js_length v = Inr w"
  shows "\<exists>c. js_compare cmp w k = Inr c"
proof (cases w)
  case None
  then show ?thesis by simp
next
  case (Some j)
  have "tame_json j"
  proof (cases v)
    case (Obj kvs)
    then have "j \<in> snd ` set kvs"
      using assms(2) Some by (simp add: own_property_member)
    then show ?thesis
      using assms(1) Obj by (auto simp: list_all_iff)
  qed (use assms(2) Some in auto)
  then show ?thesis
    unfolding Some by (rule tame_json_compares)
qed

lemma js_length_truthy: "truthy v \<Longrightarrow> \<exists>w. js_length v = Inr w"
  by (cases v) auto

lemma password_bad_create_total:
  assumes "tame v"
  shows "\<exists>c. password_bad_create cmp u v = Inr c"
proof (cases "\<not> u \<and> truthy v")
  case True
  then obtain w where w: "js_length v = Inr w"
    using js_length_truthy by blast
  from tame_length_compares [OF assms w, of cmp 8] show ?thesis
    using True w by (auto simp: password_bad_create_def js_lt_def)
next
  case False
  then show ?thesis by (auto simp: password_bad_create_def)
qed

lemma password_bad_update_total:
  assumes "tame v"
  shows "\<exists>c. password_bad_update cmp u v = Inr c"
proof (cases "u \<and> truthy v")
  case True
  then obtain w where w: "js_length v = Inr w"
    using js_length_truthy by blast
  from tame_length_compares [OF assms w, of cmp 8] tame_length_compares [OF assms w, of cmp 0]
  show ?thesis
    using True w by (auto simp: password_bad_update_def js_lt_def js_gt_def)
next
  case False
  then show ?thesis by (auto simp: password_bad_update_def)
qed

lemma email_bad_total: "tame v \<Longrightarrow> \<exists>c. email_bad v = Inr c"
  using tame_converts [of v] by (auto simp: email_bad_def regex_test_def)

lemma phone_bad_total: "tame v \<Longrightarrow> \<exists>c. phone_bad v = Inr c"
  using tame_converts [of v] by (auto simp: phone_bad_def regex_test_def)

lemma full_name_bad_Str:
  "full_name_bad (Str s) = Inr (length (trim s) < 2 \<or> 50 < length (trim s))"
  by (cases "s = []") (simp_all add: full_name_bad_def trim_def)


lemma validateUser_Inr:
  "validateUser cmp data u = Inr errors \<Longrightarrow>
     \<exists>c1 c2 c3 c5 c6. full_name_bad (full_name data) = Inr c1
       \<and> email_bad (email data) = Inr c2
       \<and> phone_bad (phone data) = Inr c3
       \<and> password_bad_create cmp u (password data) = Inr c5
       \<and> password_bad_update cmp u (password data) = Inr c6
       \<and> errors = push_if c6 password_error
            (push_if c5 password_error
            (push_if (role_bad (role data)) role_error
            (push_if c3 phone_error
            (push_if c2 email_error
            (push_if c1 full_name_error [])))))"
  unfolding validateUser_def by (auto split: sum.splits)

lemma validateUser_returns:
  assumes "full_name_bad (full_name data) = Inr c1"
    and "tame (email data)" and "tame (phone data)" and "tame (password data)"
  shows "\<exists>c2 c3 c5 c6. validateUser cmp data u = Inr (push_if c6 password_error
            (push_if c5 password_error
            (push_if (role_bad (role data)) role_error
            (push_if c3 phone_error
            (push_if c2 email_error
            (push_if c1 full_name_error []))))))"
proof -
  obtain c2 where c2: "email_bad (email data) = Inr c2"
    using email_bad_total [OF assms(2)] by blast
  obtain c3 where c3: "phone_bad (phone data) = Inr c3"
    using phone_bad_total [OF assms(3)] by blast
  obtain c5 where c5: "password_bad_create cmp u (password data) = Inr c5"
    using password_bad_create_total [OF assms(4)] by blast
  obtain c6 where c6: "password_bad_update cmp u (password data) = Inr c6"
    using password_bad_update_total [OF assms(4)] by blast
  have "validateUser cmp data u = Inr (push_if c6 password_error
            (push_if c5 password_error
            (push_if (role_bad (role data)) role_error
            (push_if c3 phone_error
            (push_if c2 email_error
            (push_if c1 full_name_error []))))))"
    unfolding validateUser_def by (simp add: assms(1) c2 c3 c5 c6)
  then show ?thesis
    by blast
qed

lemma validateUser_raises_full_name:
  "truthy (full_name data) \<Longrightarrow> \<forall>s. full_name data \<noteq> Str s \<Longrightarrow>
     validateUser cmp data u = Inl TypeError"
  by (cases "full_name data") (auto simp: validateUser_def full_name_bad_def)

lemma set_push_if: "set (push_if c m es) = (if c then insert m (set es) else set es)"
  by (simp add: push_if_def)



text \<open>
  C3. The claim: for every input record, whatever JSON value each field holds, and for
  either value of the flag, \<open>validateUser\<close> returns a list of messages and never raises.
  The code raises on a full name that is a number other than zero: it calls
  \<^verbatim>\<open>trim\<close> on it, which a number does not have.
\<close>

theorem validateUser_raises_on_number_full_name:
  "validateUser cmp numeric_name_user False = Inl TypeError"
  by (simp add: validateUser_def full_name_bad_def numeric_name_user_def sample_user_def)




text \<open>
  C8, as the code has it. For every record whose full name is a string with a trimmed
  length outside [2,50], and whose email, phone and password hold no object with a
  property named \<^verbatim>\<open>toString\<close>, \<open>validateUser\<close> returns a list that holds the full name
  message.
\<close>

theorem validateUser_full_name_rule:
  assumes "full_name data = Str s"
    and "length (trim s) < 2 \<or> 50 < length (trim s)"
    and "tame (email data)" and "tame (phone data)" and "tame (password data)"
  shows "\<exists>errors. validateUser cmp data u = Inr errors \<and> full_name_error \<in> set errors"
proof -
  have "full_name_bad (full_name data) = Inr True"
    using assms(1,2) by (simp add: full_name_bad_Str)
  from validateUser_returns [OF this assms(3-5), of cmp u] show ?thesis
    by (auto simp: set_push_if)
qed

theorem validateUser_full_name_rule_witness:
  "full_name (sample_user\<lparr>full_name := Str ''A''\<rparr>) = Str ''A''
   \<and> length (trim ''A'') < 2
   \<and> tame (email sample_user) \<and> tame (phone sample_user) \<and> tame (password sample_user)
   \<and> (\<exists>errors. validateUser no_number (sample_user\<lparr>full_name := Str ''A''\<rparr>) False = Inr errors
        \<and> full_name_error \<in> set errors)"
proof -
  have l: "length (trim ''A'') < 2"
    by (simp add: trim_def is_space_def)
  have f: "full_name (sample_user\<lparr>full_name := Str ''A''\<rparr>) = Str ''A''"
    by simp
  have t: "tame (email sample_user)" "tame (phone sample_user)" "tame (password sample_user)"
    by (simp_all add: sample_user_def)
  from validateUser_full_name_rule [OF f, of no_number False] l f t show ?thesis
    by simp
qed

text \<open>
  C8, as the claim states it, fails: a full name of 51 characters, two letters and 49
  spaces after them, has a length outside [2,50] and draws no message.
\<close>

theorem padded_full_name_accepted:
  "full_name padded_user = Str padded_name \<and> 50 < length padded_name
   \<and> validateUser no_number padded_user False = Inr []"
proof -
  have "validateUser no_number padded_user False = Inr []"
    by code_simp
  then show ?thesis
    by (simp add: padded_user_def padded_name_def)
qed

section \<open>Properties of the handlers\<close>

lemma find_row_None: "find (\<lambda>r. row_id r = i) rows = None \<longleftrightarrow> i \<notin> row_id ` set rows"
  by (auto simp: find_None_iff)

lemma db_get_absent: "i \<notin> row_id ` set (users s) \<Longrightarrow> db_get None s i = Inr None"
  by (simp add: db_get_def find_row_None)

lemma find_row_Some: "i \<in> row_id ` set rows \<Longrightarrow> map_option row_id (find (\<lambda>r. row_id r = i) rows) = Some i"
  by (induction rows) auto

lemma db_get_present: "i \<in> row_id ` set (users s) \<Longrightarrow> db_get None s i = Inr (Some i)"
  by (simp add: db_get_def find_row_Some)

lemma filter_id_absent: "i \<notin> row_id ` set rows \<Longrightarrow> filter (\<lambda>r. row_id r = i) rows = []"
  by (induction rows) auto

lemma filter_id_present: "i \<in> row_id ` set rows \<Longrightarrow> 0 < length (filter (\<lambda>r. row_id r = i) rows)"
  by (induction rows) auto

lemma filter_id_distinct:
  "distinct (map row_id rows) \<Longrightarrow> i \<in> row_id ` set rows \<Longrightarrow>
     length (filter (\<lambda>r. row_id r \<noteq> i) rows) = length rows - 1"
proof -
  assume d: "distinct (map row_id rows)" and m: "i \<in> row_id ` set rows"
  have one: "length (filter (\<lambda>r. row_id r = i) rows) = 1"
    using d m by (induction rows) (auto simp: filter_id_absent image_iff)
  have "length (filter (\<lambda>r. row_id r = i) rows)
      + length (filter (\<lambda>r. \<not> row_id r = i) rows) = length rows"
    by (rule sum_length_filter_compl)
  with one show ?thesis
    by simp
qed

lemma delete_users_absent:
  "i \<notin> row_id ` set (users s) \<Longrightarrow>
     delete_users None s i = Inr (\<lparr>status = 404, body = error_body ''User not found''\<rparr>, s)"
  by (simp add: delete_users_def db_delete_def filter_id_absent)

lemma delete_users_present:
  "i \<in> row_id ` set (users s) \<Longrightarrow>
     delete_users None s i =
       Inr (\<lparr>status = 200, body = message_body ''User deleted successfully''\<rparr>,
            s\<lparr>users := filter (\<lambda>r. row_id r \<noteq> i) (users s)\<rparr>)"
  using filter_id_present [of i "users s"] by (simp add: delete_users_def db_delete_def)

lemma put_users_absent:
  "i \<notin> row_id ` set (users s) \<Longrightarrow> validateUser cmp req True = Inr [] \<Longrightarrow>
      put_users cmp bind_text None f2 s i req =
        Inr (\<lparr>status = 404, body = error_body ''User not found''\<rparr>, s)"
  by (simp add: put_users_def db_get_absent)

text \<open>
  C4. For every request whose body fails validation, that is, for which \<open>validateUser\<close>
  returns a list that is not empty, the handler answers 400 with the messages joined
  by a comma and a space, and leaves the table as it was, whatever the state of the
  engine: no statement runs. This holds for \<^verbatim>\<open>POST\<close> and for \<^verbatim>\<open>PUT\<close>.
\<close>

theorem invalid_body_rejected:
  assumes "errors \<noteq> []"
  shows "(validateUser cmp req False = Inr errors \<longrightarrow>
            post_users cmp bind_text f s req =
              Inr (\<lparr>status = 400, body = error_body (join errors '', '')\<rparr>, s))
       \<and> (validateUser cmp req True = Inr errors \<longrightarrow>
            put_users cmp bind_text f1 f2 s i req =
              Inr (\<lparr>status = 400, body = error_body (join errors '', '')\<rparr>, s))"
  using assms by (simp add: post_users_def put_users_def)

theorem invalid_body_rejected_witness:
  "[phone_error, password_error] \<noteq> []
   \<and> validateUser no_number bad_user False = Inr [phone_error, password_error]
   \<and> post_users no_number driver_text None one_user_db bad_user =
       Inr (\<lparr>status = 400, body = error_body
         ''Phone must be exactly 10 digits, Password must be at least 8 characters''\<rparr>,
         one_user_db)
   \<and> validateUser no_number bad_user True = Inr [phone_error, password_error]
   \<and> put_users no_number driver_text None None one_user_db 1 bad_user =
       Inr (\<lparr>status = 400, body = error_body
         ''Phone must be exactly 10 digits, Password must be at least 8 characters''\<rparr>,
         one_user_db)"
proof -
  have c: "validateUser no_number bad_user False = Inr [phone_error, password_error]"
    by code_simp
  have u: "validateUser no_number bad_user True = Inr [phone_error, password_error]"
    by code_simp
  have n: "[phone_error, password_error] \<noteq> []"
    by simp
  have j: "join [phone_error, password_error] '', '' =
      ''Phone must be exactly 10 digits, Password must be at least 8 characters''"
    by (simp add: phone_error_def password_error_def)
  from invalid_body_rejected [OF n, of no_number bad_user driver_text None one_user_db None None 1]
    c u j
  show ?thesis
    by simp
qed

text \<open>
  C6. For every id that no row has, an update with a valid record and a delete both
  answer 404 and leave the table as it was. For an id that a row has, delete answers 200
  and removes the rows of that id and no other; that is one row, keys being distinct.
\<close>

theorem unknown_id_not_found:
  "(i \<notin> row_id ` set (users s) \<and> validateUser cmp req True = Inr [] \<longrightarrow>
      put_users cmp bind_text None f2 s i req =
        Inr (\<lparr>status = 404, body = error_body ''User not found''\<rparr>, s))
   \<and> (i \<notin> row_id ` set (users s) \<longrightarrow>
      delete_users None s i = Inr (\<lparr>status = 404, body = error_body ''User not found''\<rparr>, s))
   \<and> (i \<in> row_id ` set (users s) \<longrightarrow>
      (\<exists>s'. delete_users None s i =
          Inr (\<lparr>status = 200, body = message_body ''User deleted successfully''\<rparr>, s')
        \<and> set (users s') = set (users s) - {r. row_id r = i}
        \<and> seq s' = seq s
        \<and> (distinct (map row_id (users s)) \<longrightarrow> length (users s') = length (users s) - 1)))"
proof (intro conjI impI)
  assume "i \<in> row_id ` set (users s)"
  then show "\<exists>s'. delete_users None s i =
          Inr (\<lparr>status = 200, body = message_body ''User deleted successfully''\<rparr>, s')
        \<and> set (users s') = set (users s) - {r. row_id r = i}
        \<and> seq s' = seq s
        \<and> (distinct (map row_id (users s)) \<longrightarrow> length (users s') = length (users s) - 1)"
    by (auto simp: delete_users_present filter_id_distinct)
qed (simp_all add: put_users_absent delete_users_absent)

theorem unknown_id_not_found_witness:
  "2 \<notin> row_id ` set (users one_user_db)
   \<and> validateUser no_number sample_user True = Inr []
   \<and> put_users no_number driver_text None None one_user_db 2 sample_user =
        Inr (\<lparr>status = 404, body = error_body ''User not found''\<rparr>, one_user_db)
   \<and> delete_users None one_user_db 2 =
        Inr (\<lparr>status = 404, body = error_body ''User not found''\<rparr>, one_user_db)
   \<and> 1 \<in> row_id ` set (users two_user_db)
   \<and> distinct (map row_id (users two_user_db))
   \<and> delete_users None two_user_db 1 =
        Inr (\<lparr>status = 200, body = message_body ''User deleted successfully''\<rparr>,
             \<lparr>users = [eve_row], seq = 2\<rparr>)"
proof -
  have a: "2 \<notin> row_id ` set (users one_user_db)"
    by (simp add: one_user_db_def bob_row_def)
  have v: "validateUser no_number sample_user True = Inr []"
    by code_simp
  have p: "1 \<in> row_id ` set (users two_user_db)"
    by (simp add: two_user_db_def bob_row_def)
  have d: "distinct (map row_id (users two_user_db))"
    by (simp add: two_user_db_def bob_row_def eve_row_def)
  have del: "delete_users None two_user_db 1 =
        Inr (\<lparr>status = 200, body = message_body ''User deleted successfully''\<rparr>,
             \<lparr>users = [eve_row], seq = 2\<rparr>)"
    by (simp add: delete_users_def db_delete_def two_user_db_def bob_row_def eve_row_def)
  from unknown_id_not_found [of 2 one_user_db no_number sample_user driver_text None]
    unknown_id_not_found [of 1 two_user_db no_number sample_user driver_text None] a v p d del
  show ?thesis
    by simp
qed

lemma sort_key_ids_strict:
  assumes "distinct (map row_id rows)"
  shows "sorted_wrt (>) (map row_id (rev (sort_key row_id rows)))"
proof -
  let ?ks = "map row_id (sort_key row_id rows)"
  have "mset ?ks = mset (map row_id rows)"
    by simp
  then have "distinct ?ks"
    using assms by (metis mset_eq_imp_distinct_iff)
  moreover have "sorted ?ks"
    by (rule sorted_sort_key)
  ultimately have "sorted_wrt (<) ?ks"
    by (simp add: strict_sorted_iff)
  then show ?thesis
    by (simp add: rev_map [symmetric] sorted_wrt_rev)
qed

text \<open>
  C5. For every table (its keys are distinct), the list handler answers 200 with one
  object for each row, each row once, in strictly descending order of id. The object of
  a row holds its id, full name, email, phone and role under these names, and no
  returned object has a \<^verbatim>\<open>password\<close> property.
\<close>

theorem list_users_sorted:
  assumes "distinct (map row_id (users s))"
  shows "\<exists>rows objects.
       get_users None s = Inr (\<lparr>status = 200, body = JArr objects\<rparr>, s)
     \<and> objects = map (\<lambda>r. JObj [(''id'', JNum (int (row_id r))),
           (''full_name'', JStr (row_full_name r)), (''email'', JStr (row_email r)),
           (''phone'', JStr (row_phone r)), (''role'', JStr (row_role r))]) rows
     \<and> mset rows = mset (users s)
     \<and> sorted_wrt (>) (map row_id rows)
     \<and> (\<forall>j \<in> set objects. \<forall>fields. j = JObj fields \<longrightarrow> ''password'' \<notin> fst ` set fields)"
proof -
  let ?rows = "rev (sort_key row_id (users s))"
  let ?objects = "map (\<lambda>r. JObj [(''id'', JNum (int (row_id r))),
           (''full_name'', JStr (row_full_name r)), (''email'', JStr (row_email r)),
           (''phone'', JStr (row_phone r)), (''role'', JStr (row_role r))]) ?rows"
  have "map row_json ?rows = ?objects"
    by (simp add: row_json_def)
  then have "get_users None s = Inr (\<lparr>status = 200, body = JArr ?objects\<rparr>, s)"
    by (simp add: get_users_def db_all_def)
  moreover have "mset ?rows = mset (users s)"
    by simp
  moreover have "sorted_wrt (>) (map row_id ?rows)"
    using assms by (rule sort_key_ids_strict)
  moreover have "\<forall>j \<in> set ?objects. \<forall>fields. j = JObj fields \<longrightarrow> ''password'' \<notin> fst ` set fields"
    by auto
  ultimately show ?thesis
    by blast
qed

theorem list_users_sorted_witness:
  "distinct (map row_id (users two_user_db))
   \<and> users two_user_db = [bob_row, eve_row]
   \<and> get_users None two_user_db =
       Inr (\<lparr>status = 200, body = JArr
          [JObj [(''id'', JNum 2), (''full_name'', JStr ''Eve''), (''email'', JStr ''eve@b.co''),
             (''phone'', JStr ''0987654321''), (''role'', JStr ''Admin'')],
           JObj [(''id'', JNum 1), (''full_name'', JStr ''Bob''), (''email'', JStr ''a@b.co''),
             (''phone'', JStr ''1234567890''), (''role'', JStr ''User'')]]\<rparr>, two_user_db)
   \<and> (\<exists>rows. mset rows = mset (users two_user_db) \<and> map row_id rows = [2, 1])"
proof -
  have d: "distinct (map row_id (users two_user_db))"
    by (simp add: two_user_db_def bob_row_def eve_row_def)
  have u: "users two_user_db = [bob_row, eve_row]"
    by (simp add: two_user_db_def)
  have g: "get_users None two_user_db =
       Inr (\<lparr>status = 200, body = JArr
          [JObj [(''id'', JNum 2), (''full_name'', JStr ''Eve''), (''email'', JStr ''eve@b.co''),
             (''phone'', JStr ''0987654321''), (''role'', JStr ''Admin'')],
           JObj [(''id'', JNum 1), (''full_name'', JStr ''Bob''), (''email'', JStr ''a@b.co''),
             (''phone'', JStr ''1234567890''), (''role'', JStr ''User'')]]\<rparr>, two_user_db)"
    by (simp add: get_users_def db_all_def row_json_def two_user_db_def bob_row_def eve_row_def)
  from list_users_sorted [OF d] obtain rows objects where
    r: "get_users None two_user_db = Inr (\<lparr>status = 200, body = JArr objects\<rparr>, two_user_db)"
      "objects = map (\<lambda>r. JObj [(''id'', JNum (int (row_id r))),
           (''full_name'', JStr (row_full_name r)), (''email'', JStr (row_email r)),
           (''phone'', JStr (row_phone r)), (''role'', JStr (row_role r))]) rows"
      "mset rows = mset (users two_user_db)"
    by blast
  from r(1) g have "objects =
          [JObj [(''id'', JNum 2), (''full_name'', JStr ''Eve''), (''email'', JStr ''eve@b.co''),
             (''phone'', JStr ''0987654321''), (''role'', JStr ''Admin'')],
           JObj [(''id'', JNum 1), (''full_name'', JStr ''Bob''), (''email'', JStr ''a@b.co''),
             (''phone'', JStr ''1234567890''), (''role'', JStr ''User'')]]"
    by simp
  with r(2) have "map row_id rows = [2, 1]"
    by (auto simp: map_eq_Cons_conv)
  with r(3) have e: "\<exists>rows. mset rows = mset (users two_user_db) \<and> map row_id rows = [2, 1]"
    by (intro exI conjI)
  show ?thesis
    by (rule conjI [OF d conjI [OF u conjI [OF g e]]])
qed

lemma password_given_plain:
  assumes "\<forall>kvs. v \<noteq> Obj kvs"
  shows "password_given cmp v =
     Inr ((\<exists>p. v = Str p \<and> p \<noteq> []) \<or> (\<exists>xs. v = Arr xs \<and> xs \<noteq> []))"
  using assms by (cases v) (auto simp: password_given_def)

lemma password_given_total:
  assumes "password_bad_update cmp True v = Inr c"
  shows "\<exists>g. password_given cmp v = Inr g"
  using assms
  by (auto simp: password_bad_update_def password_given_def split: if_splits sum.splits)

text \<open>
  C1. For every id that a row has, a valid update that meets no other row of the same
  email overwrites full name, email, phone and role of that row (trimmed, the email in
  lower case as well) and leaves every other row alone. The stored password stays when
  the password of the request is absent or the empty string; it is replaced when the
  password is a non-empty string. Of the values that are no strings, an array that is
  not empty and an object whose \<^verbatim>\<open>length\<close> is above 0 replace it as well, by the
  text the driver stores for them, and every other one leaves it.
\<close>

theorem update_password_rule:
  assumes req: "req = \<lparr>full_name = Str fn, email = Str em, phone = Str ph, role = Str ro,
      password = pw\<rparr>"
    and valid: "validateUser cmp req True = Inr []"
    and present: "i \<in> row_id ` set (users s)"
    and free: "\<forall>r \<in> set (users s). row_email r = toLowerCase (trim em) \<longrightarrow> row_id r = i"
  shows "put_users cmp bind_text None None s i req =
     Inr (\<lparr>status = 200, body = message_body ''User updated successfully''\<rparr>,
       s\<lparr>users := map (\<lambda>r. if row_id r = i
           then r\<lparr>row_full_name := trim fn, row_email := toLowerCase (trim em),
                  row_phone := trim ph, row_role := ro,
                  row_password :=
                    (case pw of
                       Str p \<Rightarrow> if p = [] then row_password r else p
                     | Arr xs \<Rightarrow> if xs = [] then row_password r else bind_text pw
                     | Obj kvs \<Rightarrow>
                         if password_given cmp pw = Inr True then bind_text pw
                         else row_password r
                     | _ \<Rightarrow> row_password r)\<rparr>
           else r) (users s)\<rparr>)"
proof -
  have no_clash: "\<not> list_ex (\<lambda>r. row_id r \<noteq> i \<and> row_email r = toLowerCase (trim em)) (users s)"
    using free by (auto simp: list_ex_iff)
  show ?thesis
  proof (cases "\<exists>kvs. pw = Obj kvs")
    case True
    then obtain kvs where pw: "pw = Obj kvs"
      by blast
    from validateUser_Inr [OF valid] obtain c where
      "password_bad_update cmp True (password req) = Inr c"
      by blast
    then obtain g where g: "password_given cmp pw = Inr g"
      using password_given_total req by fastforce
    show ?thesis
      unfolding put_users_def req
      using valid [unfolded req] no_clash g
      by (simp add: pw db_get_present [OF present] db_update_def bound_text_def
          set_columns_def)
  next
    case False
    then have plain: "\<forall>kvs. pw \<noteq> Obj kvs"
      by simp
    show ?thesis
      unfolding put_users_def req
      using valid [unfolded req] no_clash plain
      by (cases pw)
        (simp_all add: db_get_present [OF present] password_given_plain db_update_def
          bound_text_def set_columns_def)
  qed
qed

theorem update_password_rule_witness:
  "validateUser no_number (sample_user\<lparr>password := Undefined\<rparr>) True = Inr []
   \<and> validateUser no_number (sample_user\<lparr>password := Str ''newsecret''\<rparr>) True = Inr []
   \<and> 1 \<in> row_id ` set (users two_user_db)
   \<and> toLowerCase (trim ''A@b.co'') = ''a@b.co''
   \<and> map (\<lambda>r. (row_id r, row_email r)) (users two_user_db) = [(1, ''a@b.co''), (2, ''eve@b.co'')]
   \<and> put_users no_number driver_text None None two_user_db 1 (sample_user\<lparr>password := Undefined\<rparr>) =
       Inr (\<lparr>status = 200, body = message_body ''User updated successfully''\<rparr>,
         \<lparr>users = [bob_row\<lparr>row_full_name := ''Bob'', row_email := ''a@b.co''\<rparr>, eve_row], seq = 2\<rparr>)
   \<and> put_users no_number driver_text None None two_user_db 1 (sample_user\<lparr>password := Str ''newsecret''\<rparr>) =
       Inr (\<lparr>status = 200, body = message_body ''User updated successfully''\<rparr>,
         \<lparr>users = [bob_row\<lparr>row_password := ''newsecret''\<rparr>, eve_row], seq = 2\<rparr>)"
proof -
  have r1: "sample_user\<lparr>password := Undefined\<rparr> = \<lparr>full_name = Str '' Bob'', email = Str ''A@b.co'',
      phone = Str ''1234567890'', role = Str ''User'', password = Undefined\<rparr>"
    by (simp add: sample_user_def)
  have r2: "sample_user\<lparr>password := Str ''newsecret''\<rparr> = \<lparr>full_name = Str '' Bob'',
      email = Str ''A@b.co'', phone = Str ''1234567890'', role = Str ''User'',
      password = Str ''newsecret''\<rparr>"
    by (simp add: sample_user_def)
  have v1: "validateUser no_number (sample_user\<lparr>password := Undefined\<rparr>) True = Inr []"
    by code_simp
  have v2: "validateUser no_number (sample_user\<lparr>password := Str ''newsecret''\<rparr>) True = Inr []"
    by code_simp
  have p: "1 \<in> row_id ` set (users two_user_db)"
    by (simp add: two_user_db_def bob_row_def)
  have low: "toLowerCase (trim ''A@b.co'') = ''a@b.co''"
    by code_simp
  have t1: "trim '' Bob'' = ''Bob''"
    by code_simp
  have t2: "trim ''1234567890'' = ''1234567890''"
    by code_simp
  have f: "\<forall>r \<in> set (users two_user_db). row_email r = toLowerCase (trim ''A@b.co'') \<longrightarrow> row_id r = 1"
    by (simp add: low two_user_db_def bob_row_def eve_row_def)
  have u: "users two_user_db = [bob_row, eve_row]" "seq two_user_db = 2"
    by (simp_all add: two_user_db_def)
  have ids: "row_id bob_row = 1" "row_id eve_row = 2"
    by (simp_all add: bob_row_def eve_row_def)
  have s: "two_user_db\<lparr>users := X\<rparr> = \<lparr>users = X, seq = 2\<rparr>" for X
    by (simp add: two_user_db_def)
  have e1: "put_users no_number driver_text None None two_user_db 1 (sample_user\<lparr>password := Undefined\<rparr>) =
       Inr (\<lparr>status = 200, body = message_body ''User updated successfully''\<rparr>,
         \<lparr>users = [bob_row\<lparr>row_full_name := ''Bob'', row_email := ''a@b.co''\<rparr>, eve_row], seq = 2\<rparr>)"
    unfolding update_password_rule [OF r1 v1 p f, of driver_text]
    by (simp add: u ids s low t1 t2) (simp add: bob_row_def)
  have e2: "put_users no_number driver_text None None two_user_db 1 (sample_user\<lparr>password := Str ''newsecret''\<rparr>) =
       Inr (\<lparr>status = 200, body = message_body ''User updated successfully''\<rparr>,
         \<lparr>users = [bob_row\<lparr>row_password := ''newsecret''\<rparr>, eve_row], seq = 2\<rparr>)"
    unfolding update_password_rule [OF r2 v2 p f, of driver_text]
    by (simp add: u ids s low t1 t2) (simp add: bob_row_def)
  have m: "map (\<lambda>r. (row_id r, row_email r)) (users two_user_db) =
      [(1, ''a@b.co''), (2, ''eve@b.co'')]"
    by (simp add: u bob_row_def eve_row_def)
  from v1 v2 p low m e1 e2 show ?thesis
    by blast
qed

section \<open>White space, letter case and the patterns\<close>

lemma of_char_lower:
  "is_upper c \<Longrightarrow> (of_char (lower_char c) :: nat) = of_char c + 32"
  by (auto simp: lower_char_def is_upper_def Let_def)

lemma is_space_lower_char [simp]: "is_space (lower_char c) = is_space c"
proof (cases "is_upper c")
  case True
  then show ?thesis
    using of_char_lower [OF True] by (auto simp: is_space_def is_upper_def Let_def)
next
  case False
  then show ?thesis by (simp add: lower_char_def)
qed

lemma not_upper_lower_char [simp]: "\<not> is_upper (lower_char c)"
proof (cases "is_upper c")
  case True
  then show ?thesis
    using of_char_lower [OF True] by (auto simp: is_upper_def Let_def)
next
  case False
  then show ?thesis by (simp add: lower_char_def)
qed

lemma dropWhile_fixed: "xs = [] \<or> \<not> P (hd xs) \<Longrightarrow> dropWhile P xs = xs"
  by (cases xs) auto

lemma last_dropWhile_eq: "dropWhile P xs \<noteq> [] \<Longrightarrow> last (dropWhile P xs) = last xs"
proof -
  assume n: "dropWhile P xs \<noteq> []"
  have "last xs = last (takeWhile P xs @ dropWhile P xs)"
    by simp
  also have "\<dots> = last (dropWhile P xs)"
    using n by (rule last_appendR)
  finally show ?thesis
    by simp
qed

lemma trim_fixed:
  assumes "s = [] \<or> (\<not> is_space (hd s) \<and> \<not> is_space (last s))"
  shows "trim s = s"
proof (cases "s = []")
  case True
  then show ?thesis by (simp add: trim_def)
next
  case False
  with assms have h: "\<not> is_space (hd s)" and l: "\<not> is_space (last s)"
    by auto
  have "dropWhile is_space s = s"
    using h by (simp add: dropWhile_fixed)
  moreover have "dropWhile is_space (rev s) = rev s"
    using l False by (simp add: dropWhile_fixed hd_rev)
  ultimately show ?thesis
    by (simp add: trim_def)
qed

lemma trim_ends:
  assumes "trim s \<noteq> []"
  shows "\<not> is_space (hd (trim s)) \<and> \<not> is_space (last (trim s))"
proof -
  let ?a = "dropWhile is_space s"
  let ?b = "dropWhile is_space (rev ?a)"
  have t: "trim s = rev ?b"
    by (simp add: trim_def)
  have b: "?b \<noteq> []"
    using assms t by simp
  have a: "?a \<noteq> []"
  proof
    assume "?a = []"
    then have "rev ?a = []"
      by (simp only: rev.simps)
    then have "?b = []"
      by (simp only: dropWhile.simps)
    with b show False
      by simp
  qed
  have "\<not> is_space (hd ?b)"
    using b by (rule hd_dropWhile)
  then have 1: "\<not> is_space (last (trim s))"
    using b by (simp add: t last_rev)
  have "last ?b = last (rev ?a)"
    using b by (rule last_dropWhile_eq)
  then have "hd (trim s) = hd ?a"
    using a b by (simp add: t hd_rev last_rev)
  moreover have "\<not> is_space (hd ?a)"
    using a by (rule hd_dropWhile)
  ultimately show ?thesis
    using 1 by simp
qed

lemma trim_idem: "trim (trim s) = trim s"
  using trim_ends [of s] by (intro trim_fixed) blast

lemma trim_toLowerCase: "trim (toLowerCase (trim s)) = toLowerCase (trim s)"
proof (rule trim_fixed, cases "trim s = []")
  case True
  then show "toLowerCase (trim s) = [] \<or>
    \<not> is_space (hd (toLowerCase (trim s))) \<and> \<not> is_space (last (toLowerCase (trim s)))"
    by (simp add: toLowerCase_def)
next
  case False
  then show "toLowerCase (trim s) = [] \<or>
    \<not> is_space (hd (toLowerCase (trim s))) \<and> \<not> is_space (last (toLowerCase (trim s)))"
    using trim_ends [OF False] by (simp add: toLowerCase_def hd_map last_map)
qed

lemma email_normal_stored: "email_normal (toLowerCase (trim s))"
  by (simp add: email_normal_def trim_toLowerCase) (simp add: toLowerCase_def)

lemma no_space_trim: "\<forall>c \<in> set s. \<not> is_space c \<Longrightarrow> trim s = s"
  by (rule trim_fixed) (cases s; simp)

lemma dead_not_nullable: "dead r \<Longrightarrow> \<not> nullable r"
  by (induction r) auto

lemma dead_deriv: "dead r \<Longrightarrow> dead (deriv c r)"
  by (induction r) (auto simp: dead_not_nullable)

lemma dead_no_match: "dead r \<Longrightarrow> \<not> matches r s"
  by (induction s arbitrary: r) (auto simp: dead_not_nullable dead_deriv)

lemma classes_within_deriv: "classes_within q r \<Longrightarrow> classes_within q (deriv c r)"
  by (induction r) auto

lemma outside_class_dead: "classes_within q r \<Longrightarrow> \<not> q c \<Longrightarrow> dead (deriv c r)"
  by (induction r) auto

lemma matches_within:
  "classes_within q r \<Longrightarrow> matches r s \<Longrightarrow> \<forall>c \<in> set s. q c"
proof (induction s arbitrary: r)
  case Nil
  then show ?case by simp
next
  case (Cons c cs)
  have "q c"
    using Cons.prems outside_class_dead dead_no_match by fastforce
  moreover have "\<forall>c \<in> set cs. q c"
    using Cons.IH [OF classes_within_deriv [OF Cons.prems(1)]] Cons.prems(2) by simp
  ultimately show ?case by simp
qed

lemma email_regex_no_space:
  "matches email_regex s \<Longrightarrow> \<forall>c \<in> set s. \<not> is_space c"
proof -
  have "classes_within (\<lambda>c. \<not> is_space c) email_regex"
    by (simp add: email_regex_def Plus_def Chr_def not_space_at_def is_space_def)
  then show "matches email_regex s \<Longrightarrow> \<forall>c \<in> set s. \<not> is_space c"
    by (rule matches_within)
qed

lemma phone_regex_digits:
  "matches phone_regex s \<Longrightarrow> \<forall>c \<in> set s. \<not> is_space c"
proof -
  have "classes_within (\<lambda>c. \<not> is_space c) phone_regex"
    by (simp add: phone_regex_def eval_nat_numeral is_digit_def is_space_def)
  then show "matches phone_regex s \<Longrightarrow> \<forall>c \<in> set s. \<not> is_space c"
    by (rule matches_within)
qed

section \<open>Inserts, duplicates and the stored email\<close>

lemma js_trim_Inr: "js_trim v = Inr t \<longleftrightarrow> (\<exists>s. v = Str s \<and> t = trim s)"
  by (cases v) auto

lemma push_if_Nil:
  "push_if c m es = [] \<longleftrightarrow> \<not> c \<and> es = []"
  "[] = push_if c m es \<longleftrightarrow> \<not> c \<and> es = []"
  by (auto simp: push_if_def)

lemma validateUser_ok:
  assumes "validateUser cmp req u = Inr []"
  shows "full_name_bad (full_name req) = Inr False" and "email_bad (email req) = Inr False"
    and "phone_bad (phone req) = Inr False" and "\<not> role_bad (role req)"
  using validateUser_Inr [OF assms] by (auto simp: push_if_Nil)

lemma role_ok_Str: "\<not> role_bad v \<Longrightarrow> \<exists>ro. v = Str ro"
  by (auto simp: role_bad_def validRoles_def)

lemma valid_email_trim:
  assumes "email_bad (Str em) = Inr False"
  shows "trim em = em"
proof -
  have "matches email_regex em"
    using assms by (simp add: email_bad_def regex_test_def split: if_splits)
  then show ?thesis
    by (intro no_space_trim email_regex_no_space)
qed

lemma fold_max_ge: "k \<le> fold max xs (k::nat)"
  by (induction xs arbitrary: k) (auto intro: order_trans [OF max.cobounded2])

lemma fold_max_member: "x \<in> set xs \<Longrightarrow> x \<le> fold max xs (k::nat)"
proof (induction xs arbitrary: k)
  case Nil
  then show ?case by simp
next
  case (Cons y ys)
  show ?case
  proof (cases "x = y")
    case True
    have "max y k \<le> fold max ys (max y k)"
      by (rule fold_max_ge)
    then show ?thesis
      using True by simp
  next
    case False
    with Cons show ?thesis by simp
  qed
qed

lemma next_id_fresh: "next_id s \<notin> row_id ` set (users s)"
proof
  assume "next_id s \<in> row_id ` set (users s)"
  then have "next_id s \<in> set (map row_id (users s))"
    by simp
  then have "next_id s \<le> fold max (map row_id (users s)) (seq s)"
    by (rule fold_max_member)
  then show False
    by (simp add: next_id_def)
qed

lemma unique_message_includes: "str_includes unique_message ''UNIQUE constraint failed''"
  by code_simp

lemma post_users_created:
  assumes "post_users cmp bind_text f s req = Inr (r, s')" and "status r = 201"
  shows "\<exists>fn em ph ro. full_name req = Str fn \<and> email req = Str em \<and> phone req = Str ph
      \<and> role req = Str ro \<and> validateUser cmp req False = Inr []
      \<and> r = \<lparr>status = 201, body = JObj [(''id'', JNum (int (next_id s))), (''full_name'', JStr fn),
            (''email'', JStr em), (''phone'', JStr ph), (''role'', JStr ro)]\<rparr>
      \<and> s' = s\<lparr>users := users s @ [\<lparr>row_id = next_id s, row_full_name = trim fn,
            row_email = toLowerCase (trim em), row_phone = trim ph, row_role = ro,
            row_password = bound_text bind_text (password req)\<rparr>], seq := next_id s\<rparr>"
proof -
  from assms obtain errors where v: "validateUser cmp req False = Inr errors"
    by (auto simp: post_users_def split: sum.splits)
  have e: "errors = []"
    using assms v by (auto simp: post_users_def split: if_splits)
  note ok = validateUser_ok [OF v [unfolded e]]
  obtain ro where ro: "role req = Str ro"
    using role_ok_Str [OF ok(4)] by blast
  from assms v e obtain fn em ph where
    t: "js_trim (full_name req) = Inr fn" "js_trim (email req) = Inr em"
       "js_trim (phone req) = Inr ph"
    by (auto simp: post_users_def split: sum.splits)
  then obtain fn' em' ph' where
    f: "full_name req = Str fn'" "email req = Str em'" "phone req = Str ph'"
       "fn = trim fn'" "em = trim em'" "ph = trim ph'"
    by (auto simp: js_trim_Inr)
  show ?thesis
    using assms v e t ro f
    by (auto simp: post_users_def db_insert_def Let_def bound_text_def
        split: option.splits if_splits)
qed

lemma full_name_ok_Str: "full_name_bad v = Inr False \<Longrightarrow> \<exists>fn. v = Str fn"
  by (cases v) (auto simp: full_name_bad_def split: if_splits)

lemma post_users_sample:
  "post_users no_number driver_text None empty_db sample_user =
     Inr (\<lparr>status = 201, body = created_body\<rparr>, one_user_db)"
  by code_simp

text \<open>
  C2, as the code has it. Take an insert that succeeded, and a second request whose email
  is equal to the first up to letter case alone, both emails and the phone of the second
  being strings. If the second request passes validation and the engine runs its
  statements, then as an insert, and as an update of a row that was there before the
  first insert, it fails with 400 and the message \<^verbatim>\<open>Email already exists\<close>, and the
  table is as it was before it.
\<close>

theorem duplicate_email_rejected:
  assumes first: "post_users cmp bind_text f s req1 = Inr (r1, s1)" "status r1 = 201"
    and e1: "email req1 = Str e1" and e2: "email req2 = Str e2"
    and same: "toLowerCase e1 = toLowerCase e2"
    and ph: "phone req2 = Str p2"
  shows "(validateUser cmp req2 False = Inr [] \<longrightarrow>
            post_users cmp bind_text None s1 req2 =
              Inr (\<lparr>status = 400, body = error_body ''Email already exists''\<rparr>, s1))
       \<and> (validateUser cmp req2 True = Inr [] \<and> i \<in> row_id ` set (users s) \<longrightarrow>
            put_users cmp bind_text None None s1 i req2 =
              Inr (\<lparr>status = 400, body = error_body ''Email already exists''\<rparr>, s1))"
proof -
  from post_users_created [OF first] e1 obtain new where
    v1: "validateUser cmp req1 False = Inr []" and
    s1: "users s1 = users s @ [new]" and
    new: "row_id new = next_id s" "row_email new = toLowerCase (trim e1)"
    by auto
  have "trim e1 = e1"
    using validateUser_ok(2) [OF v1] e1 by (simp add: valid_email_trim)
  then have stored: "row_email new = toLowerCase e2"
    using new same by simp
  have clash: "list_ex (\<lambda>r. row_email r = toLowerCase e2) (users s1)"
    using stored by (simp add: s1)
  have post: "post_users cmp bind_text None s1 req2 =
      Inr (\<lparr>status = 400, body = error_body ''Email already exists''\<rparr>, s1)"
    if v: "validateUser cmp req2 False = Inr []"
  proof -
    obtain fn where fn: "full_name req2 = Str fn"
      using full_name_ok_Str [OF validateUser_ok(1) [OF v]] by blast
    have t: "trim e2 = e2"
      using validateUser_ok(2) [OF v] e2 by (simp add: valid_email_trim)
    show ?thesis
      using clash
      by (simp add: post_users_def v fn e2 ph t db_insert_def unique_message_includes)
  qed
  have put: "put_users cmp bind_text None None s1 i req2 =
      Inr (\<lparr>status = 400, body = error_body ''Email already exists''\<rparr>, s1)"
    if v: "validateUser cmp req2 True = Inr []" and i: "i \<in> row_id ` set (users s)"
  proof -
    obtain fn where fn: "full_name req2 = Str fn"
      using full_name_ok_Str [OF validateUser_ok(1) [OF v]] by blast
    have t: "trim e2 = e2"
      using validateUser_ok(2) [OF v] e2 by (simp add: valid_email_trim)
    have "row_id new \<noteq> i"
      using i next_id_fresh [of s] new by auto
    then have other: "list_ex (\<lambda>r. row_id r \<noteq> i \<and> row_email r = toLowerCase e2) (users s1)"
      using stored by (simp add: s1)
    have here: "list_ex (\<lambda>r. row_id r = i) (users s1)"
      using i by (auto simp: s1 list_ex_iff)
    have "i \<in> row_id ` set (users s1)"
      using i by (auto simp: s1)
    then have got: "db_get None s1 i = Inr (Some i)"
      by (rule db_get_present)
    from validateUser_Inr [OF v] obtain c where
      "password_bad_update cmp True (password req2) = Inr c"
      by blast
    then obtain g where g: "password_given cmp (password req2) = Inr g"
      using password_given_total by blast
    show ?thesis
      using other here
      by (simp add: put_users_def v fn e2 ph t got g db_update_def unique_message_includes)
  qed
  from post put show ?thesis
    by blast
qed

text \<open>
  C2, as the claim states it, fails: after a successful insert, a second insert whose email
  differs from the first in letter case and a leading space is answered with the
  validation message, not with \<^verbatim>\<open>Email already exists\<close>.
\<close>

theorem spaced_duplicate_fails_validation:
  "post_users no_number driver_text None empty_db sample_user =
     Inr (\<lparr>status = 201, body = created_body\<rparr>, one_user_db)
   \<and> email sample_user = Str ''A@b.co'' \<and> email spaced_user = Str '' a@B.co''
   \<and> toLowerCase (trim ''A@b.co'') = toLowerCase (trim '' a@B.co'')
   \<and> post_users no_number driver_text None one_user_db spaced_user =
       Inr (\<lparr>status = 400, body = error_body ''A valid email is required''\<rparr>, one_user_db)
   \<and> error_body ''A valid email is required'' \<noteq> error_body ''Email already exists''"
proof -
  have "toLowerCase (trim ''A@b.co'') = toLowerCase (trim '' a@B.co'')"
    by code_simp
  moreover have "post_users no_number driver_text None one_user_db spaced_user =
       Inr (\<lparr>status = 400, body = error_body ''A valid email is required''\<rparr>, one_user_db)"
    by code_simp
  ultimately show ?thesis
    using post_users_sample by (simp add: sample_user_def spaced_user_def error_body_def)
qed

lemma post_users_eve:
  "post_users no_number driver_text None one_user_db eve_user =
     Inr (\<lparr>status = 201, body = eve_created_body\<rparr>, two_user_db)"
  by code_simp

theorem duplicate_email_rejected_witness:
  "post_users no_number driver_text None one_user_db eve_user =
     Inr (\<lparr>status = 201, body = eve_created_body\<rparr>, two_user_db)
   \<and> toLowerCase ''Eve@b.co'' = toLowerCase ''EVE@B.CO''
   \<and> validateUser no_number eve_upper_user False = Inr []
   \<and> validateUser no_number eve_upper_user True = Inr []
   \<and> 1 \<in> row_id ` set (users one_user_db)
   \<and> post_users no_number driver_text None two_user_db eve_upper_user =
        Inr (\<lparr>status = 400, body = error_body ''Email already exists''\<rparr>, two_user_db)
   \<and> put_users no_number driver_text None None two_user_db 1 eve_upper_user =
        Inr (\<lparr>status = 400, body = error_body ''Email already exists''\<rparr>, two_user_db)"
proof -
  have st: "status \<lparr>status = 201, body = eve_created_body\<rparr> = 201"
    by simp
  have e1: "email eve_user = Str ''Eve@b.co''"
    by (simp add: eve_user_def)
  have e2: "email eve_upper_user = Str ''EVE@B.CO''"
    by (simp add: eve_upper_user_def)
  have same: "toLowerCase ''Eve@b.co'' = toLowerCase ''EVE@B.CO''"
    by code_simp
  have ph: "phone eve_upper_user = Str ''0987654321''"
    by (simp add: eve_upper_user_def eve_user_def)
  have vc: "validateUser no_number eve_upper_user False = Inr []"
    by code_simp
  have vu: "validateUser no_number eve_upper_user True = Inr []"
    by code_simp
  have i: "1 \<in> row_id ` set (users one_user_db)"
    by (simp add: one_user_db_def bob_row_def)
  from duplicate_email_rejected [OF post_users_eve st e1 e2 same ph, of 1] same vc vu i
    post_users_eve
  show ?thesis
    by simp
qed

text \<open>
  C9. On a successful insert (201) the body of the response holds full name, email and
  phone as the request supplied them, while the new row holds the trimmed values and the
  email in lower case. So there is a valid request whose answer differs from the record
  that the list handler returns after it.
\<close>

theorem created_response_echoes_request:
  "(\<forall>cmp bind_text f s req r s'.
      post_users cmp bind_text f s req = Inr (r, s') \<and> status r = 201 \<longrightarrow>
      (\<exists>fn em ph ro. full_name req = Str fn \<and> email req = Str em \<and> phone req = Str ph
        \<and> role req = Str ro
        \<and> body r = JObj [(''id'', JNum (int (next_id s))), (''full_name'', JStr fn),
             (''email'', JStr em), (''phone'', JStr ph), (''role'', JStr ro)]
        \<and> users s' = users s @ [\<lparr>row_id = next_id s, row_full_name = trim fn,
             row_email = toLowerCase (trim em), row_phone = trim ph, row_role = ro,
             row_password = bound_text bind_text (password req)\<rparr>]))
   \<and> (\<exists>cmp bind_text s req r s' rows.
        post_users cmp bind_text None s req = Inr (r, s') \<and> status r = 201
        \<and> get_users None s' = Inr (\<lparr>status = 200, body = JArr rows\<rparr>, s')
        \<and> body r \<notin> set rows)"
proof (intro conjI allI impI)
  fix cmp bind_text f s req r s'
  assume a: "post_users cmp bind_text f s req = Inr (r, s') \<and> status r = 201"
  then have p: "post_users cmp bind_text f s req = Inr (r, s')" and st: "status r = 201"
    by simp_all
  from post_users_created [OF p st]
  show "\<exists>fn em ph ro. full_name req = Str fn \<and> email req = Str em \<and> phone req = Str ph
        \<and> role req = Str ro
        \<and> body r = JObj [(''id'', JNum (int (next_id s))), (''full_name'', JStr fn),
             (''email'', JStr em), (''phone'', JStr ph), (''role'', JStr ro)]
        \<and> users s' = users s @ [\<lparr>row_id = next_id s, row_full_name = trim fn,
             row_email = toLowerCase (trim em), row_phone = trim ph, row_role = ro,
             row_password = bound_text bind_text (password req)\<rparr>]"
    by auto
next
  have g: "get_users None one_user_db =
      Inr (\<lparr>status = 200, body = JArr [row_json bob_row]\<rparr>, one_user_db)"
    by (simp add: get_users_def db_all_def one_user_db_def)
  have d: "created_body \<notin> set [row_json bob_row]"
    by (simp add: created_body_def row_json_def bob_row_def)
  have "post_users no_number driver_text None empty_db sample_user =
        Inr (\<lparr>status = 201, body = created_body\<rparr>, one_user_db)
      \<and> status \<lparr>status = 201, body = created_body\<rparr> = 201
      \<and> get_users None one_user_db =
          Inr (\<lparr>status = 200, body = JArr [row_json bob_row]\<rparr>, one_user_db)
      \<and> body \<lparr>status = 201, body = created_body\<rparr> \<notin> set [row_json bob_row]"
    using post_users_sample g d by simp
  then show "\<exists>cmp bind_text s req r s' rows.
        post_users cmp bind_text None s req = Inr (r, s') \<and> status r = 201
        \<and> get_users None s' = Inr (\<lparr>status = 200, body = JArr rows\<rparr>, s')
        \<and> body r \<notin> set rows"
    by blast
qed

theorem created_response_echoes_request_witness:
  "post_users no_number driver_text None empty_db sample_user =
     Inr (\<lparr>status = 201, body = created_body\<rparr>, one_user_db)
   \<and> status \<lparr>status = 201, body = created_body\<rparr> = 201
   \<and> created_body = JObj [(''id'', JNum 1), (''full_name'', JStr '' Bob''),
        (''email'', JStr ''A@b.co''), (''phone'', JStr ''1234567890''), (''role'', JStr ''User'')]
   \<and> users one_user_db = [\<lparr>row_id = 1, row_full_name = ''Bob'', row_email = ''a@b.co'',
        row_phone = ''1234567890'', row_role = ''User'', row_password = ''secret12''\<rparr>]"
proof -
  have st: "status \<lparr>status = 201, body = created_body\<rparr> = 201"
    by simp
  have n: "next_id empty_db = 1" "users empty_db = []"
    by (simp_all add: next_id_def empty_db_def)
  have t: "trim '' Bob'' = ''Bob''" "toLowerCase (trim ''A@b.co'') = ''a@b.co''"
    "trim ''1234567890'' = ''1234567890''"
    by code_simp+
  from created_response_echoes_request [THEN conjunct1, rule_format,
      of no_number driver_text None empty_db sample_user "\<lparr>status = 201, body = created_body\<rparr>" one_user_db]
    post_users_sample
  show ?thesis
    by (simp add: sample_user_def n t bound_text_def)
qed

lemma post_users_table:
  assumes "post_users cmp bind_text f s req = Inr (r, s')"
  shows "s' = s \<or> (\<exists>new em. users s' = users s @ [new] \<and> row_email new = toLowerCase (trim em))"
  using assms
  by (auto simp: post_users_def db_insert_def Let_def js_trim_Inr
      split: sum.splits if_splits option.splits)

lemma db_update_table:
  "db_update f s i fn em ph ro pw = Inr s' \<Longrightarrow>
     users s' = map (\<lambda>r. if row_id r = i then set_columns fn em ph ro pw r else r) (users s)"
  by (auto simp: db_update_def split: option.splits if_splits)

lemma put_users_table:
  assumes "put_users cmp bind_text f1 f2 s i req = Inr (r, s')"
  shows "s' = s \<or> (\<exists>fn em ph ro pw.
      db_update f2 s i fn (toLowerCase (trim em)) ph ro pw = Inr s')"
  using assms
  by (auto simp: put_users_def js_trim_Inr split: sum.splits if_splits option.splits)

lemma delete_users_table:
  assumes "delete_users f s i = Inr (r, s')"
  shows "s' = s \<or> users s' = filter (\<lambda>r. row_id r \<noteq> i) (users s)"
  using assms
  by (auto simp: delete_users_def db_delete_def split: sum.splits if_splits option.splits)

lemma get_users_table:
  assumes "get_users f s = Inr (r, s')"
  shows "s' = s"
  using assms by (auto simp: get_users_def split: sum.splits)

lemma set_columns_email: "row_email (set_columns fn em ph ro pw r) = em"
  by (simp add: set_columns_def split: option.splits)

text \<open>
  C10. Every stored email being in lower case and without white space at either end is
  an invariant of the table: it holds of the empty table, and every handler that ends in
  a response leaves a table where it holds, given one where it held.
\<close>

theorem stored_emails_normal:
  "emails_normal empty_db
   \<and> (emails_normal s \<longrightarrow>
        (post_users cmp bind_text f s req = Inr (r, s') \<longrightarrow> emails_normal s')
      \<and> (put_users cmp bind_text f1 f2 s i req = Inr (r, s') \<longrightarrow> emails_normal s')
      \<and> (delete_users f s i = Inr (r, s') \<longrightarrow> emails_normal s')
      \<and> (get_users f s = Inr (r, s') \<longrightarrow> emails_normal s'))"
proof (intro conjI impI)
  show "emails_normal empty_db"
    by (simp add: emails_normal_def empty_db_def)
next
  assume "emails_normal s" and "post_users cmp bind_text f s req = Inr (r, s')"
  then show "emails_normal s'"
    using post_users_table [of cmp bind_text f s req r s']
    by (auto simp: emails_normal_def email_normal_stored)
next
  assume "emails_normal s" and "put_users cmp bind_text f1 f2 s i req = Inr (r, s')"
  then show "emails_normal s'"
    using put_users_table [of cmp bind_text f1 f2 s i req r s']
    by (auto simp: emails_normal_def email_normal_stored set_columns_email
        dest!: db_update_table)
next
  assume "emails_normal s" and "delete_users f s i = Inr (r, s')"
  then show "emails_normal s'"
    using delete_users_table [of f s i r s'] by (auto simp: emails_normal_def)
next
  assume "emails_normal s" and "get_users f s = Inr (r, s')"
  then show "emails_normal s'"
    using get_users_table [of f s r s'] by simp
qed

theorem stored_emails_normal_witness:
  "emails_normal one_user_db
   \<and> post_users no_number driver_text None one_user_db eve_user =
        Inr (\<lparr>status = 201, body = eve_created_body\<rparr>, two_user_db)
   \<and> emails_normal two_user_db
   \<and> row_email eve_row = ''eve@b.co''"
proof -
  have "trim ''a@b.co'' = ''a@b.co''"
    by code_simp
  then have n: "emails_normal one_user_db"
    by (simp add: emails_normal_def email_normal_def one_user_db_def bob_row_def is_upper_def)
  from stored_emails_normal [of one_user_db no_number driver_text None eve_user
      "\<lparr>status = 201, body = eve_created_body\<rparr>" two_user_db] n post_users_eve
  show ?thesis
    by (simp add: eve_row_def)
qed

text \<open>
  The keys of the table stay distinct under every handler, as the primary key demands:
  the hypothesis of the property of the list handler holds of every table the handlers
  reach from the empty one.
\<close>

lemma set_columns_id: "row_id (set_columns fn em ph ro pw r) = row_id r"
  by (simp add: set_columns_def split: option.splits)

lemma distinct_ids_preserved:
  assumes "distinct (map row_id (users s))"
  shows "(post_users cmp bind_text f s req = Inr (r, s') \<longrightarrow> distinct (map row_id (users s')))
    \<and> (put_users cmp bind_text f1 f2 s i req = Inr (r, s') \<longrightarrow> distinct (map row_id (users s')))
    \<and> (delete_users f s i = Inr (r, s') \<longrightarrow> distinct (map row_id (users s')))"
proof (intro conjI impI)
  assume p: "post_users cmp bind_text f s req = Inr (r, s')"
  then have "s' = s \<or> (\<exists>new. users s' = users s @ [new] \<and> row_id new = next_id s)"
    by (auto simp: post_users_def db_insert_def Let_def
        split: sum.splits if_splits option.splits)
  then show "distinct (map row_id (users s'))"
    using assms next_id_fresh [of s] by auto
next
  assume "put_users cmp bind_text f1 f2 s i req = Inr (r, s')"
  from put_users_table [OF this] have "map row_id (users s') = map row_id (users s)"
    by (auto dest!: db_update_table simp: set_columns_id)
  then show "distinct (map row_id (users s'))"
    using assms by simp
next
  assume "delete_users f s i = Inr (r, s')"
  from delete_users_table [OF this] show "distinct (map row_id (users s'))"
    using assms by (auto simp: distinct_map_filter)
qed

end
